theory Spec2Isabelle
  imports Main
begin

section \<open>The CSS selector builder of 05-objects-tasks.js\<close>

subsection \<open>Errors\<close>

text \<open>
  Every failure of the builder is \<^verbatim>\<open>throw new Error(message)\<close>; the two kinds of
  failure differ in the message only. A thrown error is the \<open>Inl\<close> branch of the result.
\<close>

datatype error = Error string

definition duplicate_message :: string where
  "duplicate_message =
     ''Element, id and pseudo-element should not occur more then one time inside the selector''"

definition order_message :: string where
  "order_message =
     ''Selector parts should be arranged in the following order: element, id, class, attribute, pseudo-class, pseudo-element''"

subsection \<open>The builder as a value\<close>

text \<open>
  A builder holds the ranks pushed so far (\<open>callStack\<close>) and the rendered fragments
  (\<open>resultsArr\<close>). Values given to the add operations are strings.
\<close>

record CssSelectorBuilder =
  callStack :: "int list"
  resultsArr :: "string list"

text \<open>
  \<^verbatim>\<open>Array.prototype.find\<close> is \<^const>\<open>find\<close>: the first item that satisfies the test,
  \<open>None\<close> for \<^verbatim>\<open>undefined\<close>. \<^verbatim>\<open>undefined === n\<close> and \<^verbatim>\<open>undefined < n\<close> are both
  false.
\<close>

fun strict_eq :: "int option \<Rightarrow> int \<Rightarrow> bool" where
  "strict_eq None n = False"
| "strict_eq (Some x) n = (x = n)"

fun less_than :: "int option \<Rightarrow> int \<Rightarrow> bool" where
  "less_than None n = False"
| "less_than (Some x) n = (x < n)"

definition element :: "CssSelectorBuilder \<Rightarrow> string \<Rightarrow> error + CssSelectorBuilder" where
  "element this val =
     (let callStack' = callStack this;
          resultsArr' = resultsArr this;
          checkCallStack = find (\<lambda>item. item \<le> 6) callStack'
      in if strict_eq checkCallStack 6 then Inl (Error duplicate_message)
         else if less_than checkCallStack 6 then Inl (Error order_message)
         else Inr \<lparr>callStack = callStack' @ [6], resultsArr = resultsArr' @ [val]\<rparr>)"

definition id' :: "CssSelectorBuilder \<Rightarrow> string \<Rightarrow> error + CssSelectorBuilder" where
  "id' this val =
     (let callStack' = callStack this;
          resultsArr' = resultsArr this;
          checkCallStack = find (\<lambda>item. item \<le> 5) callStack'
      in if strict_eq checkCallStack 5 then Inl (Error duplicate_message)
         else if less_than checkCallStack 5 then Inl (Error order_message)
         else Inr \<lparr>callStack = callStack' @ [5], resultsArr = resultsArr' @ [''#'' @ val]\<rparr>)"

definition class' :: "CssSelectorBuilder \<Rightarrow> string \<Rightarrow> error + CssSelectorBuilder" where
  "class' this val =
     (let callStack' = callStack this;
          resultsArr' = resultsArr this;
          checkCallStack = find (\<lambda>item. item < 4) callStack'
      in if less_than checkCallStack 4 then Inl (Error order_message)
         else Inr \<lparr>callStack = callStack' @ [4], resultsArr = resultsArr' @ [''.'' @ val]\<rparr>)"

definition attr :: "CssSelectorBuilder \<Rightarrow> string \<Rightarrow> error + CssSelectorBuilder" where
  "attr this val =
     (let callStack' = callStack this;
          resultsArr' = resultsArr this;
          checkCallStack = find (\<lambda>item. item < 3) callStack'
      in if less_than checkCallStack 3 then Inl (Error order_message)
         else Inr \<lparr>callStack = callStack' @ [3],
                   resultsArr = resultsArr' @ [''['' @ val @ '']'']\<rparr>)"

definition pseudoClass :: "CssSelectorBuilder \<Rightarrow> string \<Rightarrow> error + CssSelectorBuilder" where
  "pseudoClass this val =
     (let callStack' = callStack this;
          resultsArr' = resultsArr this;
          checkCallStack = find (\<lambda>item. item < 2) callStack'
      in if less_than checkCallStack 2 then Inl (Error order_message)
         else Inr \<lparr>callStack = callStack' @ [2], resultsArr = resultsArr' @ ['':'' @ val]\<rparr>)"

definition pseudoElement :: "CssSelectorBuilder \<Rightarrow> string \<Rightarrow> error + CssSelectorBuilder" where
  "pseudoElement this val =
     (let callStack' = callStack this;
          resultsArr' = resultsArr this;
          checkCallStack = find (\<lambda>item. item \<le> 1) callStack'
      in if strict_eq checkCallStack 1 then Inl (Error duplicate_message)
         else if less_than checkCallStack 1 then Inl (Error order_message)
         else Inr \<lparr>callStack = callStack' @ [1], resultsArr = resultsArr' @ [''::'' @ val]\<rparr>)"

definition stringify :: "CssSelectorBuilder \<Rightarrow> string" where
  "stringify this = concat (resultsArr this)"

definition combine ::
  "CssSelectorBuilder \<Rightarrow> CssSelectorBuilder \<Rightarrow> string \<Rightarrow> CssSelectorBuilder \<Rightarrow> CssSelectorBuilder"
where
  "combine this selector1 combinator selector2 =
     (let resultsArr' = resultsArr this
      in \<lparr>callStack = [],
          resultsArr = resultsArr' @
            [stringify selector1 @ '' '' @ combinator @ '' '' @ stringify selector2]\<rparr>)"

text \<open>The exported facade: \<^verbatim>\<open>new CssSelectorBuilder()\<close>, both arrays empty.\<close>

definition cssSelectorBuilder :: CssSelectorBuilder where
  "cssSelectorBuilder = \<lparr>callStack = [], resultsArr = []\<rparr>"

subsection \<open>Categories, chains of calls and reachable builders\<close>

text \<open>
  The six add operations, named by category, with the rank each one pushes, whether it
  has a duplicate check, and the fragment it appends.
\<close>

datatype category = Element | Id | Class | Attribute | PseudoClass | PseudoElement

fun add :: "category \<Rightarrow> CssSelectorBuilder \<Rightarrow> string \<Rightarrow> error + CssSelectorBuilder" where
  "add Element = element"
| "add Id = id'"
| "add Class = class'"
| "add Attribute = attr"
| "add PseudoClass = pseudoClass"
| "add PseudoElement = pseudoElement"

fun rank :: "category \<Rightarrow> int" where
  "rank Element = 6"
| "rank Id = 5"
| "rank Class = 4"
| "rank Attribute = 3"
| "rank PseudoClass = 2"
| "rank PseudoElement = 1"

fun singleton :: "category \<Rightarrow> bool" where
  "singleton Element = True"
| "singleton Id = True"
| "singleton PseudoElement = True"
| "singleton c = False"

fun rendered :: "category \<Rightarrow> string \<Rightarrow> string" where
  "rendered Element v = v"
| "rendered Id v = ''#'' @ v"
| "rendered Class v = ''.'' @ v"
| "rendered Attribute v = ''['' @ v @ '']''"
| "rendered PseudoClass v = '':'' @ v"
| "rendered PseudoElement v = ''::'' @ v"

text \<open>A chain of calls \<open>b.c\<^sub>1(v\<^sub>1).c\<^sub>2(v\<^sub>2)...\<close>; it stops at the first call that throws.\<close>

fun chain :: "(category \<times> string) list \<Rightarrow> CssSelectorBuilder \<Rightarrow> error + CssSelectorBuilder" where
  "chain [] b = Inr b"
| "chain ((c, v) # calls) b =
     (case add c b v of Inl e \<Rightarrow> Inl e | Inr b' \<Rightarrow> chain calls b')"

text \<open>
  The builders a client can obtain: the exported facade, the result of a successful add
  operation on one of them, and the result of \<open>combine\<close> on three of them.
\<close>

inductive reachable :: "CssSelectorBuilder \<Rightarrow> bool" where
  facade: "reachable cssSelectorBuilder"
| added: "reachable b \<Longrightarrow> add c b v = Inr b' \<Longrightarrow> reachable b'"
| combined: "reachable r \<Longrightarrow> reachable s1 \<Longrightarrow> reachable s2 \<Longrightarrow> reachable (combine r s1 k s2)"

text \<open>Ranks never rise along the list, and each singleton rank occurs at most once.\<close>

definition non_increasing :: "int list \<Rightarrow> bool" where
  "non_increasing rs = sorted_wrt (\<lambda>x y. y \<le> x) rs"

definition ranks_ok :: "int list \<Rightarrow> bool" where
  "ranks_ok rs \<longleftrightarrow>
     non_increasing rs \<and> count_list rs 6 \<le> 1 \<and> count_list rs 5 \<le> 1 \<and> count_list rs 1 \<le> 1"

text \<open>The ranks and the rendered fragments of a list of calls, in call order.\<close>

fun ranks_of :: "(category \<times> string) list \<Rightarrow> int list" where
  "ranks_of [] = []"
| "ranks_of ((c, v) # calls) = rank c # ranks_of calls"

fun fragments_of :: "(category \<times> string) list \<Rightarrow> string list" where
  "fragments_of [] = []"
| "fragments_of ((c, v) # calls) = rendered c v # fragments_of calls"

text \<open>A chain of calls is valid when the ranks of its categories satisfy that predicate.\<close>

definition valid_calls :: "(category \<times> string) list \<Rightarrow> bool" where
  "valid_calls calls = ranks_ok (ranks_of calls)"

text \<open>The test a category's call gives to \<^verbatim>\<open>find\<close>.\<close>

definition blocks :: "category \<Rightarrow> int \<Rightarrow> bool" where
  "blocks c item = (if singleton c then item \<le> rank c else item < rank c)"

section \<open>The builder on a heap\<close>

text \<open>
  The methods copy the receiver's arrays with \<^verbatim>\<open>slice()\<close>, change the copies with
  \<^verbatim>\<open>push\<close> and hand them to the constructor, which stores the references it is given.
  Whether a call changes its receiver depends on that aliasing, so here arrays and
  builder instances live in a store: a reference is an index, allocation appends, and
  \<^verbatim>\<open>push\<close> updates in place. An instance is the pair of its two array references.
\<close>

record heap =
  numArrays :: "int list list"
  strArrays :: "string list list"
  builders :: "(nat \<times> nat) list"

definition callStack_ref :: "heap \<Rightarrow> nat \<Rightarrow> nat" where
  "callStack_ref h this = fst (builders h ! this)"

definition resultsArr_ref :: "heap \<Rightarrow> nat \<Rightarrow> nat" where
  "resultsArr_ref h this = snd (builders h ! this)"

definition slice_num :: "heap \<Rightarrow> nat \<Rightarrow> nat \<times> heap" where
  "slice_num h a = (length (numArrays h), h\<lparr>numArrays := numArrays h @ [numArrays h ! a]\<rparr>)"

definition slice_str :: "heap \<Rightarrow> nat \<Rightarrow> nat \<times> heap" where
  "slice_str h a = (length (strArrays h), h\<lparr>strArrays := strArrays h @ [strArrays h ! a]\<rparr>)"

definition push_num :: "heap \<Rightarrow> nat \<Rightarrow> int \<Rightarrow> heap" where
  "push_num h a x = h\<lparr>numArrays := (numArrays h)[a := numArrays h ! a @ [x]]\<rparr>"

definition push_str :: "heap \<Rightarrow> nat \<Rightarrow> string \<Rightarrow> heap" where
  "push_str h a x = h\<lparr>strArrays := (strArrays h)[a := strArrays h ! a @ [x]]\<rparr>"

text \<open>The array literal \<^verbatim>\<open>[]\<close>.\<close>

definition empty_num :: "heap \<Rightarrow> nat \<times> heap" where
  "empty_num h = (length (numArrays h), h\<lparr>numArrays := numArrays h @ [[]]\<rparr>)"

definition empty_str :: "heap \<Rightarrow> nat \<times> heap" where
  "empty_str h = (length (strArrays h), h\<lparr>strArrays := strArrays h @ [[]]\<rparr>)"

text \<open>\<^verbatim>\<open>new CssSelectorBuilder(callStack, resultsArr)\<close>: the fields alias the arguments.\<close>

definition new_CssSelectorBuilder :: "heap \<Rightarrow> nat \<Rightarrow> nat \<Rightarrow> nat \<times> heap" where
  "new_CssSelectorBuilder h callStack' resultsArr' =
     (length (builders h), h\<lparr>builders := builders h @ [(callStack', resultsArr')]\<rparr>)"

definition element_h :: "heap \<Rightarrow> nat \<Rightarrow> string \<Rightarrow> (error + nat) \<times> heap" where
  "element_h h this val =
     (let (callStack', h1) = slice_num h (callStack_ref h this);
          (resultsArr', h2) = slice_str h1 (resultsArr_ref h1 this);
          checkCallStack = find (\<lambda>item. item \<le> 6) (numArrays h2 ! callStack')
      in if strict_eq checkCallStack 6 then (Inl (Error duplicate_message), h2)
         else if less_than checkCallStack 6 then (Inl (Error order_message), h2)
         else
           (let h3 = push_str h2 resultsArr' val;
                h4 = push_num h3 callStack' 6;
                (b, h5) = new_CssSelectorBuilder h4 callStack' resultsArr'
            in (Inr b, h5)))"

definition id_h :: "heap \<Rightarrow> nat \<Rightarrow> string \<Rightarrow> (error + nat) \<times> heap" where
  "id_h h this val =
     (let (callStack', h1) = slice_num h (callStack_ref h this);
          (resultsArr', h2) = slice_str h1 (resultsArr_ref h1 this);
          checkCallStack = find (\<lambda>item. item \<le> 5) (numArrays h2 ! callStack')
      in if strict_eq checkCallStack 5 then (Inl (Error duplicate_message), h2)
         else if less_than checkCallStack 5 then (Inl (Error order_message), h2)
         else
           (let h3 = push_str h2 resultsArr' (''#'' @ val);
                h4 = push_num h3 callStack' 5;
                (b, h5) = new_CssSelectorBuilder h4 callStack' resultsArr'
            in (Inr b, h5)))"

definition class_h :: "heap \<Rightarrow> nat \<Rightarrow> string \<Rightarrow> (error + nat) \<times> heap" where
  "class_h h this val =
     (let (callStack', h1) = slice_num h (callStack_ref h this);
          (resultsArr', h2) = slice_str h1 (resultsArr_ref h1 this);
          checkCallStack = find (\<lambda>item. item < 4) (numArrays h2 ! callStack')
      in if less_than checkCallStack 4 then (Inl (Error order_message), h2)
         else
           (let h3 = push_str h2 resultsArr' (''.'' @ val);
                h4 = push_num h3 callStack' 4;
                (b, h5) = new_CssSelectorBuilder h4 callStack' resultsArr'
            in (Inr b, h5)))"

definition attr_h :: "heap \<Rightarrow> nat \<Rightarrow> string \<Rightarrow> (error + nat) \<times> heap" where
  "attr_h h this val =
     (let (callStack', h1) = slice_num h (callStack_ref h this);
          (resultsArr', h2) = slice_str h1 (resultsArr_ref h1 this);
          checkCallStack = find (\<lambda>item. item < 3) (numArrays h2 ! callStack')
      in if less_than checkCallStack 3 then (Inl (Error order_message), h2)
         else
           (let h3 = push_str h2 resultsArr' (''['' @ val @ '']'');
                h4 = push_num h3 callStack' 3;
                (b, h5) = new_CssSelectorBuilder h4 callStack' resultsArr'
            in (Inr b, h5)))"

definition pseudoClass_h :: "heap \<Rightarrow> nat \<Rightarrow> string \<Rightarrow> (error + nat) \<times> heap" where
  "pseudoClass_h h this val =
     (let (callStack', h1) = slice_num h (callStack_ref h this);
          (resultsArr', h2) = slice_str h1 (resultsArr_ref h1 this);
          checkCallStack = find (\<lambda>item. item < 2) (numArrays h2 ! callStack')
      in if less_than checkCallStack 2 then (Inl (Error order_message), h2)
         else
           (let h3 = push_str h2 resultsArr' ('':'' @ val);
                h4 = push_num h3 callStack' 2;
                (b, h5) = new_CssSelectorBuilder h4 callStack' resultsArr'
            in (Inr b, h5)))"

definition pseudoElement_h :: "heap \<Rightarrow> nat \<Rightarrow> string \<Rightarrow> (error + nat) \<times> heap" where
  "pseudoElement_h h this val =
     (let (callStack', h1) = slice_num h (callStack_ref h this);
          (resultsArr', h2) = slice_str h1 (resultsArr_ref h1 this);
          checkCallStack = find (\<lambda>item. item \<le> 1) (numArrays h2 ! callStack')
      in if strict_eq checkCallStack 1 then (Inl (Error duplicate_message), h2)
         else if less_than checkCallStack 1 then (Inl (Error order_message), h2)
         else
           (let h3 = push_str h2 resultsArr' (''::'' @ val);
                h4 = push_num h3 callStack' 1;
                (b, h5) = new_CssSelectorBuilder h4 callStack' resultsArr'
            in (Inr b, h5)))"

definition stringify_h :: "heap \<Rightarrow> nat \<Rightarrow> string" where
  "stringify_h h this = concat (strArrays h ! resultsArr_ref h this)"

definition combine_h :: "heap \<Rightarrow> nat \<Rightarrow> nat \<Rightarrow> string \<Rightarrow> nat \<Rightarrow> nat \<times> heap" where
  "combine_h h this selector1 combinator selector2 =
     (let (resultsArr', h1) = slice_str h (resultsArr_ref h this);
          h2 = push_str h1 resultsArr'
                 (stringify_h h1 selector1 @ '' '' @ combinator @ '' '' @ stringify_h h1 selector2);
          (callStack', h3) = empty_num h2
      in new_CssSelectorBuilder h3 callStack' resultsArr')"

fun add_h :: "category \<Rightarrow> heap \<Rightarrow> nat \<Rightarrow> string \<Rightarrow> (error + nat) \<times> heap" where
  "add_h Element = element_h"
| "add_h Id = id_h"
| "add_h Class = class_h"
| "add_h Attribute = attr_h"
| "add_h PseudoClass = pseudoClass_h"
| "add_h PseudoElement = pseudoElement_h"

text \<open>
  \<^verbatim>\<open>const cssSelectorBuilder = new CssSelectorBuilder()\<close> on the empty store: the two
  default arguments are evaluated, then the instance is allocated.
\<close>

definition module_heap :: "nat \<times> heap" where
  "module_heap =
     (let (callStack', h1) = empty_num \<lparr>numArrays = [], strArrays = [], builders = []\<rparr>;
          (resultsArr', h2) = empty_str h1
      in new_CssSelectorBuilder h2 callStack' resultsArr')"

text \<open>The value an instance holds in a store, and the stores in which references are valid.\<close>

definition builder_at :: "heap \<Rightarrow> nat \<Rightarrow> CssSelectorBuilder" where
  "builder_at h this =
     \<lparr>callStack = numArrays h ! callStack_ref h this,
      resultsArr = strArrays h ! resultsArr_ref h this\<rparr>"

definition wf_heap :: "heap \<Rightarrow> bool" where
  "wf_heap h =
     list_all (\<lambda>(c, r). c < length (numArrays h) \<and> r < length (strArrays h)) (builders h)"

definition is_builder :: "heap \<Rightarrow> nat \<Rightarrow> bool" where
  "is_builder h this \<longleftrightarrow> this < length (builders h)"

text \<open>
  \<open>unchanged h h'\<close>: every array and every instance of \<open>h\<close> is in \<open>h'\<close> at the same
  reference with the same contents; \<open>h'\<close> may hold more.
\<close>

definition unchanged :: "heap \<Rightarrow> heap \<Rightarrow> bool" where
  "unchanged h h' \<longleftrightarrow>
     take (length (numArrays h)) (numArrays h') = numArrays h \<and>
     take (length (strArrays h)) (strArrays h') = strArrays h \<and>
     take (length (builders h)) (builders h') = builders h"

text \<open>
  The two stores an add operation can leave behind: after the two \<^verbatim>\<open>slice()\<close> calls
  only (the call throws), and after the pushes and the constructor (the call returns).
\<close>

definition copies :: "heap \<Rightarrow> nat \<Rightarrow> heap" where
  "copies h this =
     h\<lparr>numArrays := numArrays h @ [numArrays h ! callStack_ref h this],
       strArrays := strArrays h @ [strArrays h ! resultsArr_ref h this]\<rparr>"

definition extended :: "heap \<Rightarrow> nat \<Rightarrow> int \<Rightarrow> string \<Rightarrow> heap" where
  "extended h this r s =
     \<lparr>numArrays = numArrays h @ [numArrays h ! callStack_ref h this @ [r]],
      strArrays = strArrays h @ [strArrays h ! resultsArr_ref h this @ [s]],
      builders = builders h @ [(length (numArrays h), length (strArrays h))]\<rparr>"

text \<open>The store \<open>combine\<close> leaves behind, given the combined string.\<close>

definition combined :: "heap \<Rightarrow> nat \<Rightarrow> string \<Rightarrow> heap" where
  "combined h this s =
     \<lparr>numArrays = numArrays h @ [[]],
      strArrays = strArrays h @ [strArrays h ! resultsArr_ref h this @ [s]],
      builders = builders h @ [(length (numArrays h), length (strArrays h))]\<rparr>"

text \<open>The result of an add operation as a value: the error, or the builder now at the reference.\<close>

fun result_at :: "(error + nat) \<times> heap \<Rightarrow> error + CssSelectorBuilder" where
  "result_at (Inl e, h) = Inl e"
| "result_at (Inr b, h) = Inr (builder_at h b)"

section \<open>Rectangle\<close>

text \<open>
  The constructor stores its two arguments and an arrow function, whose \<^verbatim>\<open>this\<close> is
  the object under construction. The function is a value that names that object; calling
  it reads the object's fields in the store of the call. Numbers are any type with a
  product, standing for the language's \<^verbatim>\<open>*\<close>.
\<close>

datatype closure = Area_of_this nat

record 'n rectangle_object =
  width :: 'n
  height :: 'n
  getArea :: closure

definition Rectangle ::
  "'n rectangle_object list \<Rightarrow> 'n \<Rightarrow> 'n \<Rightarrow> nat \<times> 'n rectangle_object list"
where
  "Rectangle h width' height' =
     (let this = length h
      in (this, h @ [\<lparr>width = width', height = height', getArea = Area_of_this this\<rparr>]))"

fun call :: "'n::times rectangle_object list \<Rightarrow> closure \<Rightarrow> 'n" where
  "call h (Area_of_this this) = width (h ! this) * height (h ! this)"

text \<open>The assignments \<^verbatim>\<open>r.width = w\<close> and \<^verbatim>\<open>r.height = w\<close> of a client.\<close>

definition assign_width :: "'n rectangle_object list \<Rightarrow> nat \<Rightarrow> 'n \<Rightarrow> 'n rectangle_object list" where
  "assign_width h r w = h[r := (h ! r)\<lparr>width := w\<rparr>]"

definition assign_height :: "'n rectangle_object list \<Rightarrow> nat \<Rightarrow> 'n \<Rightarrow> 'n rectangle_object list" where
  "assign_height h r w = h[r := (h ! r)\<lparr>height := w\<rparr>]"

section \<open>fromJSON\<close>

text \<open>
  \<^verbatim>\<open>fromJSON\<close> is \<^verbatim>\<open>Object.assign(Object.create(proto), JSON.parse(json))\<close>. The parsed
  value is a JSON value; property keys are array indices or names.
\<close>

datatype key = Index nat | Name string

datatype 'n json =
    JNull
  | JBoolean bool
  | JNumber 'n
  | JString string
  | JArray "'n json list"
  | JObject "(key \<times> 'n json) list"

record ('p, 'n) js_object =
  prototype :: 'p
  own :: "(key \<times> 'n json) list"

text \<open>
  What the source leaves to the language: the parser, the number an array or string
  length is, and the \<^verbatim>\<open>[[Set]]\<close> of the target, which depends on the accessors of its
  prototype chain and may throw.
\<close>

record ('e, 'p, 'n) runtime =
  JSON_parse :: "string \<Rightarrow> 'e + 'n json"
  number_of :: "nat \<Rightarrow> 'n"
  Set_property ::
    "('p, 'n) js_object list \<Rightarrow> nat \<Rightarrow> key \<Rightarrow> 'n json \<Rightarrow> 'e + ('p, 'n) js_object list"

record 'n property =
  prop_key :: key
  prop_value :: "'n json"
  enumerable :: bool

text \<open>
  \<^verbatim>\<open>ToObject\<close> followed by \<^verbatim>\<open>[[OwnPropertyKeys]]\<close>: the own properties of the object a
  non-null value is converted to. A wrapped boolean or number has none; a string and an
  array have their indices and a \<^verbatim>\<open>length\<close> that is not enumerable.
\<close>

fun own_properties :: "(nat \<Rightarrow> 'n) \<Rightarrow> 'n json \<Rightarrow> 'n property list" where
  "own_properties num JNull = []"
| "own_properties num (JBoolean b) = []"
| "own_properties num (JNumber n) = []"
| "own_properties num (JString s) =
     map (\<lambda>(i, c). \<lparr>prop_key = Index i, prop_value = JString [c], enumerable = True\<rparr>)
       (enumerate 0 s) @
     [\<lparr>prop_key = Name ''length'', prop_value = JNumber (num (length s)), enumerable = False\<rparr>]"
| "own_properties num (JArray xs) =
     map (\<lambda>(i, x). \<lparr>prop_key = Index i, prop_value = x, enumerable = True\<rparr>)
       (enumerate 0 xs) @
     [\<lparr>prop_key = Name ''length'', prop_value = JNumber (num (length xs)), enumerable = False\<rparr>]"
| "own_properties num (JObject kvs) =
     map (\<lambda>(k, x). \<lparr>prop_key = k, prop_value = x, enumerable = True\<rparr>) kvs"

definition Object_create :: "('p, 'n) js_object list \<Rightarrow> 'p \<Rightarrow> nat \<times> ('p, 'n) js_object list" where
  "Object_create h proto = (length h, h @ [\<lparr>prototype = proto, own = []\<rparr>])"

fun assign_properties ::
  "('e, 'p, 'n) runtime \<Rightarrow> ('p, 'n) js_object list \<Rightarrow> nat \<Rightarrow> 'n property list \<Rightarrow>
   'e + ('p, 'n) js_object list"
where
  "assign_properties rt h to [] = Inr h"
| "assign_properties rt h to (p # ps) =
     (if enumerable p
      then (case Set_property rt h to (prop_key p) (prop_value p) of
              Inl e \<Rightarrow> Inl e
            | Inr h' \<Rightarrow> assign_properties rt h' to ps)
      else assign_properties rt h to ps)"

text \<open>\<^verbatim>\<open>Object.assign(target, source)\<close>: a null source is skipped.\<close>

definition Object_assign ::
  "('e, 'p, 'n) runtime \<Rightarrow> ('p, 'n) js_object list \<Rightarrow> nat \<Rightarrow> 'n json \<Rightarrow>
   'e + nat \<times> ('p, 'n) js_object list"
where
  "Object_assign rt h target source =
     (if source = JNull then Inr (target, h)
      else (case assign_properties rt h target (own_properties (number_of rt) source) of
              Inl e \<Rightarrow> Inl e
            | Inr h' \<Rightarrow> Inr (target, h')))"

definition fromJSON ::
  "('e, 'p, 'n) runtime \<Rightarrow> ('p, 'n) js_object list \<Rightarrow> 'p \<Rightarrow> string \<Rightarrow>
   'e + nat \<times> ('p, 'n) js_object list"
where
  "fromJSON rt h proto json =
     (let (target, h1) = Object_create h proto
      in case JSON_parse rt json of
           Inl e \<Rightarrow> Inl e
         | Inr source \<Rightarrow> Object_assign rt h1 target source)"

text \<open>The values the parser can return that are neither object, array nor string.\<close>

fun primitive_or_null :: "'n json \<Rightarrow> bool" where
  "primitive_or_null JNull = True"
| "primitive_or_null (JBoolean b) = True"
| "primitive_or_null (JNumber n) = True"
| "primitive_or_null v = False"

text \<open>
  A runtime for examples: a parser of three literals, and a \<^verbatim>\<open>[[Set]]\<close> that appends
  an own property.
\<close>

definition literal_runtime :: "(unit, nat, int) runtime" where
  "literal_runtime =
     \<lparr>JSON_parse = (\<lambda>s. if s = ''null'' then Inr JNull
                         else if s = ''true'' then Inr (JBoolean True)
                         else if s = ''7'' then Inr (JNumber 7) else Inl ()),
      number_of = int,
      Set_property = (\<lambda>h to k x. Inr (h[to := (h ! to)\<lparr>own := own (h ! to) @ [(k, x)]\<rparr>]))\<rparr>"

section \<open>Properties of the add operations\<close>

lemma messages_differ: "duplicate_message \<noteq> order_message"
  by (simp add: duplicate_message_def order_message_def)

lemma find_holds: "find P xs = Some x \<Longrightarrow> P x \<and> x \<in> set xs"
  by (induction xs) (auto split: if_splits)

lemma blocks_simps:
  "blocks Element = (\<lambda>item. item \<le> 6)"
  "blocks Id = (\<lambda>item. item \<le> 5)"
  "blocks Class = (\<lambda>item. item < 4)"
  "blocks Attribute = (\<lambda>item. item < 3)"
  "blocks PseudoClass = (\<lambda>item. item < 2)"
  "blocks PseudoElement = (\<lambda>item. item \<le> 1)"
  by (simp_all add: blocks_def fun_eq_iff)

lemma add_cases:
  "add c b v =
     (case find (blocks c) (callStack b) of
        None \<Rightarrow> Inr \<lparr>callStack = callStack b @ [rank c], resultsArr = resultsArr b @ [rendered c v]\<rparr>
      | Some x \<Rightarrow> if singleton c \<and> x = rank c then Inl (Error duplicate_message)
                  else Inl (Error order_message))"
  by (cases c)
     (auto simp: element_def id'_def class'_def attr_def pseudoClass_def pseudoElement_def
        Let_def blocks_simps split: option.splits dest!: find_holds)

lemma add_ok:
  "\<forall>r \<in> set (callStack b). \<not> blocks c r \<Longrightarrow>
   add c b v = Inr \<lparr>callStack = callStack b @ [rank c], resultsArr = resultsArr b @ [rendered c v]\<rparr>"
  by (auto simp: add_cases find_None_iff split: option.splits dest!: find_holds)

lemma add_InrD:
  "add c b v = Inr b' \<Longrightarrow>
     b' = \<lparr>callStack = callStack b @ [rank c], resultsArr = resultsArr b @ [rendered c v]\<rparr> \<and>
     (\<forall>r \<in> set (callStack b). \<not> blocks c r)"
  by (auto simp: add_cases find_None_iff split: option.splits if_splits)

lemma add_InlD:
  "add c b v = Inl e \<Longrightarrow>
     (\<exists>x \<in> set (callStack b). blocks c x) \<and>
     (e = Error duplicate_message \<or> e = Error order_message)"
  by (auto simp: add_cases split: option.splits if_splits dest!: find_holds)

lemma add_order_messageD:
  "add c b v = Inl (Error order_message) \<Longrightarrow> \<exists>x \<in> set (callStack b). x < rank c"
  using messages_differ
  by (auto simp: add_cases blocks_def split: option.splits if_splits dest!: find_holds)

lemma find_non_increasing:
  "non_increasing rs \<Longrightarrow> rank c \<in> set rs \<Longrightarrow> singleton c \<Longrightarrow> find (blocks c) rs = Some (rank c)"
  unfolding non_increasing_def
  by (induction rs) (auto simp: blocks_def)

lemma add_duplicate:
  "non_increasing (callStack b) \<Longrightarrow> singleton c \<Longrightarrow> rank c \<in> set (callStack b) \<Longrightarrow>
   add c b v = Inl (Error duplicate_message)"
  by (simp add: add_cases find_non_increasing)

lemma add_order:
  "x \<in> set (callStack b) \<Longrightarrow> x < rank c \<Longrightarrow> \<not> (singleton c \<and> rank c \<in> set (callStack b)) \<Longrightarrow>
   add c b v = Inl (Error order_message)"
  by (auto simp: add_cases find_None_iff blocks_def split: option.splits dest!: find_holds)

lemma non_increasing_snoc:
  "non_increasing (rs @ [r]) \<longleftrightarrow> non_increasing rs \<and> (\<forall>x \<in> set rs. r \<le> x)"
  by (auto simp: non_increasing_def sorted_wrt_append)

lemma ranks_ok_snoc:
  "ranks_ok (rs @ [rank c]) \<longleftrightarrow> ranks_ok rs \<and> (\<forall>r \<in> set rs. \<not> blocks c r)"
  by (cases c) (auto simp: ranks_ok_def non_increasing_snoc blocks_def count_list_0_iff
        order.order_iff_strict)

lemma add_ranks_ok: "ranks_ok (callStack b) \<Longrightarrow> add c b v = Inr b' \<Longrightarrow> ranks_ok (callStack b')"
  using ranks_ok_snoc by (auto dest!: add_InrD)

lemma combine_simps:
  "callStack (combine r s1 k s2) = []"
  "resultsArr (combine r s1 k s2) = resultsArr r @ [stringify s1 @ '' '' @ k @ '' '' @ stringify s2]"
  by (simp_all add: combine_def)

lemma ranks_ok_Nil: "ranks_ok []"
  by (simp add: ranks_ok_def non_increasing_def)

lemma reachable_ranks_ok: "reachable b \<Longrightarrow> ranks_ok (callStack b)"
  by (induction rule: reachable.induct)
     (auto simp: cssSelectorBuilder_def ranks_ok_Nil combine_simps intro: add_ranks_ok)

lemma chain_snoc:
  "chain (calls @ [(c, v)]) b = (case chain calls b of Inl e \<Rightarrow> Inl e | Inr b' \<Rightarrow> add c b' v)"
  by (induction calls arbitrary: b) (auto split: sum.splits)

lemma chain_append:
  "chain (xs @ ys) b = (case chain xs b of Inl e \<Rightarrow> Inl e | Inr b' \<Rightarrow> chain ys b')"
  by (induction xs arbitrary: b) (auto split: sum.splits)

lemma ranks_of_append [simp]: "ranks_of (xs @ ys) = ranks_of xs @ ranks_of ys"
  by (induction xs rule: ranks_of.induct) auto

lemma fragments_of_append [simp]: "fragments_of (xs @ ys) = fragments_of xs @ fragments_of ys"
  by (induction xs rule: fragments_of.induct) auto

lemma set_ranks_of: "set (ranks_of calls) = rank ` fst ` set calls"
  by (induction calls rule: ranks_of.induct) auto

lemma chain_InrD:
  "chain calls b0 = Inr b \<Longrightarrow>
     b = \<lparr>callStack = callStack b0 @ ranks_of calls,
          resultsArr = resultsArr b0 @ fragments_of calls\<rparr>"
proof (induction calls b0 rule: chain.induct)
  case (1 b)
  then show ?case by simp
next
  case (2 c v calls b0)
  then obtain b' where b': "add c b0 v = Inr b'" and rest: "chain calls b' = Inr b"
    by (auto split: sum.splits)
  from add_InrD [OF b'] "2.IH" [OF b' rest] show ?case by simp
qed

lemma chain_ranks_ok:
  "chain calls b0 = Inr b \<Longrightarrow> ranks_ok (callStack b0) \<Longrightarrow> ranks_ok (callStack b)"
  by (induction calls b0 rule: chain.induct) (auto split: sum.splits intro: add_ranks_ok)

lemma chain_ok:
  "ranks_ok (callStack b0 @ ranks_of calls) \<Longrightarrow>
   chain calls b0 =
     Inr \<lparr>callStack = callStack b0 @ ranks_of calls,
          resultsArr = resultsArr b0 @ fragments_of calls\<rparr>"
proof (induction calls rule: rev_induct)
  case Nil
  then show ?case by simp
next
  case (snoc x calls)
  obtain c v where x: "x = (c, v)" by (cases x)
  from snoc.prems have ok: "ranks_ok ((callStack b0 @ ranks_of calls) @ [rank c])"
    by (simp add: x)
  then have "ranks_ok (callStack b0 @ ranks_of calls)"
    and free: "\<forall>r \<in> set (callStack b0 @ ranks_of calls). \<not> blocks c r"
    unfolding ranks_ok_snoc by simp_all
  with snoc.IH show ?case
    by (simp add: x chain_snoc add_ok)
qed

lemma rank_inj: "rank c = rank c' \<longleftrightarrow> c = c'"
  by (cases c; cases c') simp_all

lemma rank_range: "1 \<le> rank c \<and> rank c \<le> 6"
  by (cases c) simp_all

lemma chain_from_start:
  assumes "callStack b0 = []" "chain calls b0 = Inr b"
  shows "callStack b = ranks_of calls" and "non_increasing (callStack b)"
proof -
  from chain_InrD [OF assms(2)] assms(1) show "callStack b = ranks_of calls" by simp
  from assms have "ranks_ok (callStack b)"
    by (auto intro: chain_ranks_ok simp: ranks_ok_Nil)
  then show "non_increasing (callStack b)" by (simp add: ranks_ok_def)
qed

lemma rank_mem_ranks_of: "rank c \<in> set (ranks_of calls) \<longleftrightarrow> c \<in> fst ` set calls"
  by (force simp: set_ranks_of rank_inj)

text \<open>Every rank a reachable builder has recorded is one of the six ranks.\<close>

lemma reachable_ranks_range: "reachable b \<Longrightarrow> \<forall>r \<in> set (callStack b). 1 \<le> r \<and> r \<le> 6"
  by (induction rule: reachable.induct)
     (auto simp: cssSelectorBuilder_def combine_simps rank_range dest!: add_InrD)

text \<open>Every reachable builder is the result of a chain started on a builder with no recorded rank.\<close>

lemma reachable_is_chain:
  "reachable b \<Longrightarrow> \<exists>b0 calls. reachable b0 \<and> callStack b0 = [] \<and> chain calls b0 = Inr b"
proof (induction rule: reachable.induct)
  case facade
  have "chain [] cssSelectorBuilder = Inr cssSelectorBuilder" by simp
  moreover have "callStack cssSelectorBuilder = []" by (simp add: cssSelectorBuilder_def)
  ultimately show ?case using reachable.facade by blast
next
  case (added b c v b')
  then obtain b0 calls where start: "reachable b0" "callStack b0 = []" "chain calls b0 = Inr b"
    by blast
  from start(3) added.hyps(2) have "chain (calls @ [(c, v)]) b0 = Inr b'"
    by (simp add: chain_snoc)
  with start(1,2) show ?case by blast
next
  case (combined r s1 s2 k)
  have "chain [] (combine r s1 k s2) = Inr (combine r s1 k s2)" by simp
  moreover have "callStack (combine r s1 k s2) = []" by (simp add: combine_simps)
  moreover have "reachable (combine r s1 k s2)"
    using combined.hyps by (rule reachable.combined)
  ultimately show ?case by blast
qed

lemma reachable_id_class: "reachable \<lparr>callStack = [5, 4], resultsArr = [''#x'', ''.y'']\<rparr>"
proof -
  have 1: "add Id cssSelectorBuilder ''x'' = Inr \<lparr>callStack = [5], resultsArr = [''#x'']\<rparr>"
    by (simp add: cssSelectorBuilder_def id'_def Let_def)
  have 2: "add Class \<lparr>callStack = [5], resultsArr = [''#x'']\<rparr> ''y'' =
      Inr \<lparr>callStack = [5, 4], resultsArr = [''#x'', ''.y'']\<rparr>"
    by (simp add: class'_def Let_def)
  show ?thesis
    by (rule reachable.added [OF reachable.added [OF reachable.facade 1] 2])
qed

subsection \<open>Valid chains\<close>

text \<open>
  Claim C1. Take any list of add calls whose ranks never rise in call order and in which
  element, id and pseudo-element occur at most once each. Chained on the exported empty
  builder, every call succeeds (every prefix of the chain returns a builder), and
  \<open>stringify\<close> of the final builder is the concatenation, in call order and without
  separators, of the rendered fragments: the element value as it is, \<open>#v\<close>, \<open>.v\<close>,
  \<open>[v]\<close>, \<open>:v\<close> and \<open>::v\<close>.
\<close>

theorem valid_chain_stringify:
  assumes "valid_calls calls"
  shows "(\<forall>n. \<exists>b. chain (take n calls) cssSelectorBuilder = Inr b) \<and>
         (\<exists>b. chain calls cssSelectorBuilder = Inr b \<and>
              stringify b = concat (fragments_of calls))"
proof -
  from assms have ok: "ranks_ok (callStack cssSelectorBuilder @ ranks_of calls)"
    by (simp add: valid_calls_def cssSelectorBuilder_def)
  note whole = chain_ok [OF ok]
  have "\<exists>b. chain (take n calls) cssSelectorBuilder = Inr b" for n
  proof -
    have "chain (take n calls @ drop n calls) cssSelectorBuilder = chain calls cssSelectorBuilder"
      by simp
    then show ?thesis
      unfolding chain_append using whole by (auto split: sum.splits)
  qed
  moreover have "stringify \<lparr>callStack = callStack cssSelectorBuilder @ ranks_of calls,
          resultsArr = resultsArr cssSelectorBuilder @ fragments_of calls\<rparr>
       = concat (fragments_of calls)"
    by (simp add: stringify_def cssSelectorBuilder_def)
  ultimately show ?thesis using whole by blast
qed

lemma full_selector_valid:
  "valid_calls [(Element, ''a''), (Id, ''main''), (Class, ''x''), (Class, ''y''),
      (Attribute, ''href''), (PseudoClass, ''focus''), (PseudoElement, ''after'')]"
  by (simp add: valid_calls_def ranks_ok_def non_increasing_def)

theorem valid_chain_stringify_witness:
  "valid_calls [(Element, ''a''), (Id, ''main''), (Class, ''x''), (Class, ''y''),
      (Attribute, ''href''), (PseudoClass, ''focus''), (PseudoElement, ''after'')] \<and>
   (\<exists>b. chain [(Element, ''a''), (Id, ''main''), (Class, ''x''), (Class, ''y''),
      (Attribute, ''href''), (PseudoClass, ''focus''), (PseudoElement, ''after'')]
        cssSelectorBuilder = Inr b \<and>
     stringify b = ''a#main.x.y[href]:focus::after'')"
  using valid_chain_stringify [OF full_selector_valid] full_selector_valid by simp

subsection \<open>Order violations\<close>

text \<open>
  Claim C2, as stated: after an add operation has succeeded, every later add operation of
  a category of strictly greater rank fails with the order-violation error. It does not:
  in \<open>element('div').id('x').element('span')\<close> the call of \<open>id\<close> succeeds, \<open>element\<close>
  has the greater rank, and the last call throws the duplicate error, because the
  duplicate test comes first in \<open>element\<close>.
\<close>

theorem greater_rank_after_success_may_be_duplicate:
  "chain [(Element, ''div''), (Id, ''x'')] cssSelectorBuilder =
     Inr \<lparr>callStack = [6, 5], resultsArr = [''div'', ''#x'']\<rparr> \<and>
   rank Id < rank Element \<and>
   add Element \<lparr>callStack = [6, 5], resultsArr = [''div'', ''#x'']\<rparr> ''span'' =
     Inl (Error duplicate_message) \<and>
   Error duplicate_message \<noteq> Error order_message"
  by (simp add: cssSelectorBuilder_def element_def id'_def Let_def)
     (simp add: duplicate_message_def order_message_def)

text \<open>
  Claim C2, amended. Take a chain of successful add calls started on a builder with no
  recorded rank (the facade, or a result of \<open>combine\<close>; by \<open>reachable_is_chain\<close> every
  reachable builder is the result of such a chain). If some call of the chain has a
  rank strictly below that of category \<open>c\<close>, then adding \<open>c\<close> to the result fails: with
  the duplicate error when \<open>c\<close> is a singleton category that the chain has already
  added, with the order-violation error otherwise. And the order-violation error is
  thrown in no other situation: whenever adding \<open>c\<close> throws it, some call of the chain
  has a rank strictly below that of \<open>c\<close>.
\<close>

theorem greater_rank_after_success_fails:
  assumes "callStack b0 = []" "chain calls b0 = Inr b"
  shows "(\<forall>(c1, v1) \<in> set calls. rank c1 < rank c \<longrightarrow>
            add c b v = Inl (Error (if singleton c \<and> c \<in> fst ` set calls
                                    then duplicate_message else order_message))) \<and>
         (add c b v = Inl (Error order_message) \<longrightarrow> (\<exists>(c1, v1) \<in> set calls. rank c1 < rank c))"
proof -
  note start = chain_from_start [OF assms]
  have "add c b v = Inl (Error (if singleton c \<and> c \<in> fst ` set calls
                                then duplicate_message else order_message))"
    if "(c1, v1) \<in> set calls" "rank c1 < rank c" for c1 v1
  proof (cases "singleton c \<and> c \<in> fst ` set calls")
    case True
    then show ?thesis
      using add_duplicate [of b c v] start by (simp add: rank_mem_ranks_of)
  next
    case False
    from that(1) have lower: "rank c1 \<in> set (callStack b)"
      unfolding start(1) rank_mem_ranks_of by force
    from False have "\<not> (singleton c \<and> rank c \<in> set (callStack b))"
      by (simp add: start(1) rank_mem_ranks_of)
    from add_order [OF lower that(2) this] False show ?thesis
      by auto
  qed
  moreover have "\<exists>(c1, v1) \<in> set calls. rank c1 < rank c"
    if "add c b v = Inl (Error order_message)"
    using add_order_messageD [OF that] by (auto simp: start(1) set_ranks_of)
  ultimately show ?thesis by blast
qed

theorem greater_rank_after_success_fails_witness:
  "callStack cssSelectorBuilder = [] \<and>
   chain [(Id, ''x'')] cssSelectorBuilder = Inr \<lparr>callStack = [5], resultsArr = [''#x'']\<rparr> \<and>
   rank Id < rank Element \<and>
   add Element \<lparr>callStack = [5], resultsArr = [''#x'']\<rparr> ''div'' = Inl (Error order_message)"
proof -
  have a: "callStack cssSelectorBuilder = []" by (simp add: cssSelectorBuilder_def)
  have b: "chain [(Id, ''x'')] cssSelectorBuilder = Inr \<lparr>callStack = [5], resultsArr = [''#x'']\<rparr>"
    by (simp add: cssSelectorBuilder_def id'_def Let_def)
  from greater_rank_after_success_fails [OF a b, of Element "''div''"] a b show ?thesis by simp
qed

subsection \<open>Duplicates and repetitions\<close>

text \<open>
  Claim C3. After any chain of successful add calls started on a builder with no recorded
  rank: calling \<open>element\<close>, \<open>id\<close> or \<open>pseudoElement\<close> when the chain has already called
  it fails with the duplicate error; calling \<open>class\<close>, \<open>attr\<close> or \<open>pseudoClass\<close> when no
  call of the chain has a lower rank succeeds and appends its fragment, however often
  the chain has called it before.
\<close>

theorem second_singleton_fails_repeated_plural_succeeds:
  assumes "callStack b0 = []" "chain calls b0 = Inr b"
  shows "(singleton c \<and> c \<in> fst ` set calls \<longrightarrow> add c b v = Inl (Error duplicate_message)) \<and>
         (\<not> singleton c \<and> (\<forall>(c', v') \<in> set calls. rank c \<le> rank c') \<longrightarrow>
            add c b v = Inr \<lparr>callStack = callStack b @ [rank c],
                              resultsArr = resultsArr b @ [rendered c v]\<rparr>)"
proof -
  note start = chain_from_start [OF assms]
  have "add c b v = Inl (Error duplicate_message)" if "singleton c" "c \<in> fst ` set calls"
    using add_duplicate [of b c v] start that by (simp add: rank_mem_ranks_of)
  moreover have "add c b v = Inr \<lparr>callStack = callStack b @ [rank c],
                              resultsArr = resultsArr b @ [rendered c v]\<rparr>"
    if "\<not> singleton c" "\<forall>(c', v') \<in> set calls. rank c \<le> rank c'"
  proof (rule add_ok)
    show "\<forall>r \<in> set (callStack b). \<not> blocks c r"
      using that by (auto simp: start(1) set_ranks_of blocks_def)
  qed
  ultimately show ?thesis by blast
qed

theorem second_singleton_fails_repeated_plural_succeeds_witness:
  "add Element \<lparr>callStack = [6], resultsArr = [''div'']\<rparr> ''span'' = Inl (Error duplicate_message) \<and>
   add Class \<lparr>callStack = [4], resultsArr = [''.a'']\<rparr> ''b'' =
     Inr \<lparr>callStack = [4, 4], resultsArr = [''.a'', ''.b'']\<rparr>"
proof -
  have a: "callStack cssSelectorBuilder = []" by (simp add: cssSelectorBuilder_def)
  have e: "chain [(Element, ''div'')] cssSelectorBuilder =
      Inr \<lparr>callStack = [6], resultsArr = [''div'']\<rparr>"
    by (simp add: cssSelectorBuilder_def element_def Let_def)
  have c: "chain [(Class, ''a'')] cssSelectorBuilder =
      Inr \<lparr>callStack = [4], resultsArr = [''.a'']\<rparr>"
    by (simp add: cssSelectorBuilder_def class'_def Let_def)
  from second_singleton_fails_repeated_plural_succeeds [OF a e, of Element "''span''"]
    second_singleton_fails_repeated_plural_succeeds [OF a c, of Class "''b''"]
  show ?thesis by simp
qed

text \<open>
  Claim C4. On a reachable builder whose recorded ranks hold both the rank of a singleton
  category and a strictly lower rank, adding that category throws the duplicate error,
  not the order-violation error. (By \<open>reachable_ranks_range\<close> no reachable builder holds
  a rank below 1, so the case arises for element and id only.)
\<close>

theorem duplicate_check_precedes_order_check:
  assumes "reachable b" "singleton c"
    and "rank c \<in> set (callStack b)" "\<exists>r \<in> set (callStack b). r < rank c"
  shows "add c b v = Inl (Error duplicate_message)"
  using assms reachable_ranks_ok [OF assms(1)]
  by (intro add_duplicate) (simp_all add: ranks_ok_def)

theorem duplicate_check_precedes_order_check_witness:
  "reachable \<lparr>callStack = [5, 4], resultsArr = [''#x'', ''.y'']\<rparr> \<and>
   add Id \<lparr>callStack = [5, 4], resultsArr = [''#x'', ''.y'']\<rparr> ''z'' = Inl (Error duplicate_message)"
  using duplicate_check_precedes_order_check [OF reachable_id_class, of Id "''z''"]
    reachable_id_class
  by simp

subsection \<open>The invariant of the recorded ranks\<close>

text \<open>
  Claim C6. The recorded ranks of every reachable builder never rise in append order and
  hold 6, 5 and 1 at most once each. The predicate holds of the facade, every successful
  add operation preserves it, and a result of \<open>combine\<close> satisfies it.
\<close>

theorem ranks_invariant:
  "ranks_ok (callStack cssSelectorBuilder) \<and>
   (\<forall>c b v b'. ranks_ok (callStack b) \<and> add c b v = Inr b' \<longrightarrow> ranks_ok (callStack b')) \<and>
   (\<forall>r s1 k s2. ranks_ok (callStack (combine r s1 k s2))) \<and>
   (\<forall>b. reachable b \<longrightarrow> ranks_ok (callStack b))"
  by (auto simp: cssSelectorBuilder_def ranks_ok_Nil combine_simps
        intro: add_ranks_ok reachable_ranks_ok)

theorem ranks_invariant_witness:
  "ranks_ok (callStack \<lparr>callStack = [5, 4], resultsArr = [''#x'', ''.y'']\<rparr>)"
  using ranks_invariant reachable_id_class by blast

subsection \<open>combine on a receiver that holds fragments\<close>

text \<open>
  Claim C9. \<open>combine\<close> copies the fragments of its receiver: when the receiver \<open>r\<close> holds
  at least one fragment, \<open>r.combine(a, c, b)\<close> holds the fragments of \<open>r\<close> followed by
  the combined string, hence more than one fragment, and no recorded rank.
\<close>

theorem combine_keeps_receiver_fragments:
  assumes "resultsArr r \<noteq> []"
  shows "resultsArr (combine r a c b) =
           resultsArr r @ [stringify a @ '' '' @ c @ '' '' @ stringify b] \<and>
         1 < length (resultsArr (combine r a c b)) \<and>
         callStack (combine r a c b) = []"
  using assms by (cases "resultsArr r") (simp_all add: combine_simps)

theorem combine_keeps_receiver_fragments_witness:
  "combine \<lparr>callStack = [6], resultsArr = [''div'']\<rparr>
      \<lparr>callStack = [6], resultsArr = [''p'']\<rparr> ''+'' \<lparr>callStack = [5], resultsArr = [''#x'']\<rparr>
    = \<lparr>callStack = [], resultsArr = [''div'', ''p + #x'']\<rparr>"
  using combine_keeps_receiver_fragments [of "\<lparr>callStack = [6], resultsArr = [''div'']\<rparr>"
      "\<lparr>callStack = [6], resultsArr = [''p'']\<rparr>" "''+''"
      "\<lparr>callStack = [5], resultsArr = [''#x'']\<rparr>"]
  by (simp add: stringify_def combine_def)


section \<open>Properties of the builder on the heap\<close>

text \<open>
  The heap operations compute what the operations on values compute
  (\<open>add_h_simulates\<close>, \<open>combine_h_simulates\<close>), and they change no array and no
  instance that was in the store before the call (\<open>add_h_frame\<close>).
\<close>

lemma add_h_cases:
  "add_h c h this v =
     (case find (blocks c) (numArrays h ! callStack_ref h this) of
        None \<Rightarrow> (Inr (length (builders h)), extended h this (rank c) (rendered c v))
      | Some x \<Rightarrow>
          (if singleton c \<and> x = rank c then Inl (Error duplicate_message)
           else Inl (Error order_message), copies h this))"
  by (cases c)
     (auto simp: element_h_def id_h_def class_h_def attr_h_def pseudoClass_h_def
        pseudoElement_h_def Let_def blocks_simps slice_num_def slice_str_def push_num_def
        push_str_def new_CssSelectorBuilder_def callStack_ref_def resultsArr_ref_def
        copies_def extended_def
        split: option.splits dest!: find_holds)

lemma unchanged_refl: "unchanged h h"
  by (simp add: unchanged_def)

lemma unchanged_trans: "unchanged h h' \<Longrightarrow> unchanged h' h'' \<Longrightarrow> unchanged h h''"
  unfolding unchanged_def
  by (metis take_take min.absorb1 length_take min.cobounded2 )

lemma unchanged_copies: "unchanged h (copies h this)"
  by (simp add: unchanged_def copies_def)

lemma unchanged_extended: "unchanged h (extended h this r s)"
  by (simp add: unchanged_def extended_def)

lemma wf_heapD:
  "wf_heap h \<Longrightarrow> is_builder h b \<Longrightarrow>
     callStack_ref h b < length (numArrays h) \<and> resultsArr_ref h b < length (strArrays h)"
  unfolding wf_heap_def is_builder_def callStack_ref_def resultsArr_ref_def list_all_length
  by (cases "builders h ! b") fastforce

lemma wf_copies: "wf_heap h \<Longrightarrow> wf_heap (copies h this)"
  by (auto simp: wf_heap_def copies_def list_all_iff)

lemma wf_extended: "wf_heap h \<Longrightarrow> wf_heap (extended h this r s)"
  by (auto simp: wf_heap_def extended_def list_all_iff)

lemma take_nth_eq: "take (length xs) ys = xs \<Longrightarrow> i < length xs \<Longrightarrow> ys ! i = xs ! i"
  by (metis nth_take)

lemma unchanged_is_builder: "unchanged h h' \<Longrightarrow> is_builder h b \<Longrightarrow> is_builder h' b"
  unfolding unchanged_def is_builder_def
  by (metis length_take min_less_iff_conj)

lemma unchanged_refs:
  assumes "unchanged h h'" "is_builder h b"
  shows "callStack_ref h' b = callStack_ref h b" "resultsArr_ref h' b = resultsArr_ref h b"
  using assms take_nth_eq [of "builders h" "builders h'" b]
  by (simp_all add: unchanged_def is_builder_def callStack_ref_def resultsArr_ref_def)

lemma unchanged_builder_at:
  assumes "unchanged h h'" "wf_heap h" "is_builder h b"
  shows "builder_at h' b = builder_at h b"
proof -
  note refs = unchanged_refs [OF assms(1,3)] and valid = wf_heapD [OF assms(2,3)]
  from assms(1) valid have "numArrays h' ! callStack_ref h b = numArrays h ! callStack_ref h b"
    and "strArrays h' ! resultsArr_ref h b = strArrays h ! resultsArr_ref h b"
    by (simp_all add: unchanged_def take_nth_eq)
  then show ?thesis by (simp add: builder_at_def refs)
qed

lemma stringify_h_builder_at: "stringify_h h b = stringify (builder_at h b)"
  by (simp add: stringify_h_def stringify_def builder_at_def)

lemma builder_at_extended:
  "builder_at (extended h this r s) (length (builders h)) =
     \<lparr>callStack = callStack (builder_at h this) @ [r],
      resultsArr = resultsArr (builder_at h this) @ [s]\<rparr>"
  by (simp add: builder_at_def extended_def callStack_ref_def resultsArr_ref_def)

lemma add_h_simulates: "result_at (add_h c h this v) = add c (builder_at h this) v"
  by (simp add: add_h_cases add_cases builder_at_extended split: option.splits)
     (simp add: builder_at_def)

lemma add_h_heap:
  assumes "add_h c h this v = (r, h')"
  shows "(\<exists>e. r = Inl e \<and> h' = copies h this) \<or>
         (r = Inr (length (builders h)) \<and> h' = extended h this (rank c) (rendered c v))"
  using assms by (auto simp: add_h_cases split: option.splits if_splits)

lemma builders_copies: "builders (copies h this) = builders h"
  by (simp add: copies_def)

lemma builders_extended:
  "builders (extended h this r s) = builders h @ [(length (numArrays h), length (strArrays h))]"
  by (simp add: extended_def)

lemma add_h_frame:
  assumes "add_h c h this v = (r, h')"
  shows "unchanged h h'" and "wf_heap h \<Longrightarrow> wf_heap h'"
    and "\<And>e. r = Inl e \<Longrightarrow> builders h' = builders h"
    and "\<And>b. r = Inr b \<Longrightarrow> b = length (builders h) \<and>
            builders h' = builders h @ [(length (numArrays h), length (strArrays h))]"
  using add_h_heap [OF assms]
  by (auto simp: unchanged_copies unchanged_extended wf_copies wf_extended
        builders_copies builders_extended)

lemma combine_h_eq:
  assumes "wf_heap h" "is_builder h s1" "is_builder h s2"
  shows "combine_h h this s1 k s2 =
     (length (builders h),
      combined h this (stringify_h h s1 @ '' '' @ k @ '' '' @ stringify_h h s2))"
proof -
  have "stringify_h (h\<lparr>strArrays := strArrays h @ [x]\<rparr>) s = stringify_h h s"
    if "is_builder h s" for s x
    using wf_heapD [OF assms(1) that]
    by (simp add: stringify_h_def resultsArr_ref_def nth_append)
  with assms(2,3) show ?thesis
    by (simp add: combine_h_def slice_str_def push_str_def empty_num_def
        new_CssSelectorBuilder_def combined_def resultsArr_ref_def Let_def)
qed

lemma unchanged_combined: "unchanged h (combined h this s)"
  by (simp add: unchanged_def combined_def)

lemma wf_combined: "wf_heap h \<Longrightarrow> wf_heap (combined h this s)"
  by (auto simp: wf_heap_def combined_def list_all_iff)

lemma builder_at_combined:
  "builder_at (combined h this s) (length (builders h)) =
     \<lparr>callStack = [], resultsArr = resultsArr (builder_at h this) @ [s]\<rparr>"
  by (simp add: builder_at_def combined_def callStack_ref_def resultsArr_ref_def)

lemma combine_h_simulates:
  assumes "wf_heap h" "is_builder h s1" "is_builder h s2" "combine_h h this s1 k s2 = (b, h')"
  shows "builder_at h' b = combine (builder_at h this) (builder_at h s1) k (builder_at h s2)"
    and "b = length (builders h)" and "unchanged h h'" and "wf_heap h'"
    and "builders h' = builders h @ [(length (numArrays h), length (strArrays h))]"
  using assms(4) assms(1) unfolding combine_h_eq [OF assms(1-3)]
  by (auto simp: builder_at_combined combine_def stringify_h_builder_at unchanged_combined
      wf_combined) (simp add: combined_def)


lemma is_builder_new: "\<not> is_builder h (length (builders h))"
  by (simp add: is_builder_def)

lemma module_heap_eq:
  "module_heap = (0, \<lparr>numArrays = [[]], strArrays = [[]], builders = [(0, 0)]\<rparr>)"
  by (simp add: module_heap_def empty_num_def empty_str_def new_CssSelectorBuilder_def)

lemma wf_module_heap: "wf_heap (snd module_heap)" "is_builder (snd module_heap) (fst module_heap)"
  by (simp_all add: module_heap_eq wf_heap_def is_builder_def)


lemma facade_stays_empty:
  assumes "unchanged (snd module_heap) h"
  shows "builder_at h (fst module_heap) = cssSelectorBuilder"
proof -
  from unchanged_builder_at [OF assms wf_module_heap] show ?thesis
    by (simp add: module_heap_eq builder_at_def callStack_ref_def resultsArr_ref_def
        cssSelectorBuilder_def)
qed

lemma after_id_heap:
  "wf_heap \<lparr>numArrays = [[], [5]], strArrays = [[], [''#x'']], builders = [(0, 0), (1, 1)]\<rparr>"
  "is_builder \<lparr>numArrays = [[], [5]], strArrays = [[], [''#x'']], builders = [(0, 0), (1, 1)]\<rparr> 1"
  "is_builder \<lparr>numArrays = [[], [5]], strArrays = [[], [''#x'']], builders = [(0, 0), (1, 1)]\<rparr> 0"
  "builder_at \<lparr>numArrays = [[], [5]], strArrays = [[], [''#x'']], builders = [(0, 0), (1, 1)]\<rparr> 0
     = cssSelectorBuilder"
  "builder_at \<lparr>numArrays = [[], [5]], strArrays = [[], [''#x'']], builders = [(0, 0), (1, 1)]\<rparr> 1
     = \<lparr>callStack = [5], resultsArr = [''#x'']\<rparr>"
  by (simp_all add: wf_heap_def is_builder_def builder_at_def callStack_ref_def
      resultsArr_ref_def cssSelectorBuilder_def)

lemma after_id_calls:
  "add_h Id (snd module_heap) (fst module_heap) ''x'' =
     (Inr 1, \<lparr>numArrays = [[], [5]], strArrays = [[], [''#x'']], builders = [(0, 0), (1, 1)]\<rparr>)"
  "add_h Element
     \<lparr>numArrays = [[], [5]], strArrays = [[], [''#x'']], builders = [(0, 0), (1, 1)]\<rparr> 1 ''div'' =
     (Inl (Error order_message),
      \<lparr>numArrays = [[], [5], [5]], strArrays = [[], [''#x''], [''#x'']],
       builders = [(0, 0), (1, 1)]\<rparr>)"
  "combine_h
     \<lparr>numArrays = [[], [5]], strArrays = [[], [''#x'']], builders = [(0, 0), (1, 1)]\<rparr> 1 1 ''+'' 1 =
     (2, \<lparr>numArrays = [[], [5], []], strArrays = [[], [''#x''], [''#x'', ''#x + #x'']],
       builders = [(0, 0), (1, 1), (2, 2)]\<rparr>)"
  "combine_h
     \<lparr>numArrays = [[], [5]], strArrays = [[], [''#x'']], builders = [(0, 0), (1, 1)]\<rparr> 0 1 ''+'' 1 =
     (2, \<lparr>numArrays = [[], [5], []], strArrays = [[], [''#x''], [''#x + #x'']],
       builders = [(0, 0), (1, 1), (2, 2)]\<rparr>)"
  by (simp_all add: module_heap_eq id_h_def element_h_def combine_h_def Let_def
      callStack_ref_def resultsArr_ref_def slice_num_def slice_str_def push_num_def
      push_str_def empty_num_def new_CssSelectorBuilder_def stringify_h_def)


text \<open>
  Claim C5. In a store with valid references, an add operation and \<open>combine\<close> leave
  every array and every instance of the store as it was, so the receiver (and the
  operands of \<open>combine\<close>) hold the same ranks and fragments afterwards. A successful
  call returns an instance that was not in the store before. A failing add operation
  constructs no instance (the store holds only the two array copies made by
  \<^verbatim>\<open>slice()\<close> in addition), and the receiver can be used as before: \<open>stringify\<close>, every
  add operation and \<open>combine\<close> give on it what they give on the receiver's value before
  the failure.
\<close>

theorem receiver_never_mutated:
  assumes "wf_heap h" "is_builder h this" "is_builder h s1" "is_builder h s2"
    and "add_h c h this v = (r, h')"
    and "combine_h h this s1 k s2 = (b, hc)"
  shows "unchanged h h' \<and> builder_at h' this = builder_at h this \<and>
         (\<forall>n. r = Inr n \<longrightarrow> \<not> is_builder h n \<and> is_builder h' n) \<and>
         (\<forall>e. r = Inl e \<longrightarrow>
            builders h' = builders h \<and>
            stringify_h h' this = stringify_h h this \<and>
            (\<forall>c2 v2. result_at (add_h c2 h' this v2) = add c2 (builder_at h this) v2) \<and>
            (\<forall>b' h''. combine_h h' this s1 k s2 = (b', h'') \<longrightarrow>
               builder_at h'' b' =
                 combine (builder_at h this) (builder_at h s1) k (builder_at h s2))) \<and>
         unchanged h hc \<and> \<not> is_builder h b \<and> is_builder hc b \<and>
         builder_at hc this = builder_at h this \<and>
         builder_at hc s1 = builder_at h s1 \<and> builder_at hc s2 = builder_at h s2"
proof -
  note frame = add_h_frame [OF assms(5)]
  note kept = unchanged_builder_at [OF frame(1) assms(1)]
  have wf': "wf_heap h'" by (rule frame(2) [OF assms(1)])
  have still: "is_builder h' x" if "is_builder h x" for x
    by (rule unchanged_is_builder [OF frame(1) that])
  have new: "\<not> is_builder h n \<and> is_builder h' n" if "r = Inr n" for n
    using frame(4) [OF that] by (simp add: is_builder_def)
  have after: "builder_at h'' b' = combine (builder_at h this) (builder_at h s1) k (builder_at h s2)"
    if "combine_h h' this s1 k s2 = (b', h'')" for b' h''
    using combine_h_simulates(1) [OF wf' still [OF assms(3)] still [OF assms(4)] that]
    by (simp add: kept assms)
  note comb = combine_h_simulates [OF assms(1,3,4,6)]
  note keptc = unchanged_builder_at [OF comb(3) assms(1)]
  have "is_builder hc b" using comb(2,5) by (simp add: is_builder_def)
  with frame(1,3) new after comb(2,3) show ?thesis
    by (simp add: kept keptc assms add_h_simulates stringify_h_builder_at is_builder_new)
qed


theorem receiver_never_mutated_witness:
  "add_h Element
     \<lparr>numArrays = [[], [5]], strArrays = [[], [''#x'']], builders = [(0, 0), (1, 1)]\<rparr> 1 ''div'' =
     (Inl (Error order_message),
      \<lparr>numArrays = [[], [5], [5]], strArrays = [[], [''#x''], [''#x'']],
       builders = [(0, 0), (1, 1)]\<rparr>) \<and>
   builder_at \<lparr>numArrays = [[], [5], [5]], strArrays = [[], [''#x''], [''#x'']],
       builders = [(0, 0), (1, 1)]\<rparr> 1 = \<lparr>callStack = [5], resultsArr = [''#x'']\<rparr> \<and>
   result_at (add_h Class \<lparr>numArrays = [[], [5], [5]], strArrays = [[], [''#x''], [''#x'']],
       builders = [(0, 0), (1, 1)]\<rparr> 1 ''y'') =
     Inr \<lparr>callStack = [5, 4], resultsArr = [''#x'', ''.y'']\<rparr>"
proof -
  let ?h = "\<lparr>numArrays = [[], [5]], strArrays = [[], [''#x'']], builders = [(0, 0), (1, 1)]\<rparr>"
  let ?h' = "\<lparr>numArrays = [[], [5], [5]], strArrays = [[], [''#x''], [''#x'']],
       builders = [(0, 0), (1, 1)]\<rparr>"
  note t = receiver_never_mutated [OF after_id_heap(1,2,2,2) after_id_calls(2,3)]
  from t have kept: "builder_at ?h' 1 = builder_at ?h 1"
    by (rule conjunct2 [THEN conjunct1])
  from t have "\<forall>c2 v2. result_at (add_h c2 ?h' 1 v2) = add c2 (builder_at ?h 1) v2"
    by blast
  then have "result_at (add_h Class ?h' 1 ''y'') = add Class (builder_at ?h 1) ''y''"
    by (rule allE, elim allE)
  moreover have "add Class (builder_at ?h 1) ''y'' =
      Inr \<lparr>callStack = [5, 4], resultsArr = [''#x'', ''.y'']\<rparr>"
    unfolding after_id_heap(5) by (simp add: class'_def Let_def)
  ultimately show ?thesis
    using kept after_id_calls(2) after_id_heap(5) by simp
qed


text \<open>
  Claim C7. \<open>combine(a, c, b)\<close> called on the exported facade, whose arrays are empty:
  the call has no failing path; it changes nothing already in the store, so \<open>a\<close> and
  \<open>b\<close> are as before; it returns an instance new to the store that holds the one
  fragment \<open>a.stringify() + " " + c + " " + b.stringify()\<close> and no recorded rank; so its
  \<open>stringify\<close> is that string, and every add operation on it succeeds, whatever ranks
  \<open>a\<close> and \<open>b\<close> have recorded.
\<close>

theorem combine_on_facade:
  assumes "wf_heap h" "is_builder h this" "is_builder h a" "is_builder h b"
    and "builder_at h this = cssSelectorBuilder"
    and "combine_h h this a c b = (n, h')"
  shows "unchanged h h' \<and> builder_at h' a = builder_at h a \<and> builder_at h' b = builder_at h b \<and>
         \<not> is_builder h n \<and> is_builder h' n \<and>
         builder_at h' n =
           \<lparr>callStack = [], resultsArr = [stringify_h h a @ '' '' @ c @ '' '' @ stringify_h h b]\<rparr> \<and>
         stringify_h h' n = stringify_h h a @ '' '' @ c @ '' '' @ stringify_h h b \<and>
         (\<forall>cat v. result_at (add_h cat h' n v) =
            Inr \<lparr>callStack = [rank cat],
                 resultsArr = [stringify_h h a @ '' '' @ c @ '' '' @ stringify_h h b,
                               rendered cat v]\<rparr>)"
proof -
  note comb = combine_h_simulates [OF assms(1,3,4,6)]
  note kept = unchanged_builder_at [OF comb(3) assms(1)]
  have is_new: "is_builder h' n" using comb(2,5) by (simp add: is_builder_def)
  have held: "builder_at h' n =
      \<lparr>callStack = [], resultsArr = [stringify_h h a @ '' '' @ c @ '' '' @ stringify_h h b]\<rparr>"
    using comb(1) by (simp add: assms(5) combine_def cssSelectorBuilder_def stringify_h_builder_at)
  have "add cat (builder_at h' n) v =
      Inr \<lparr>callStack = [rank cat],
           resultsArr = [stringify_h h a @ '' '' @ c @ '' '' @ stringify_h h b, rendered cat v]\<rparr>"
    for cat v
    unfolding held by (simp add: add_ok)
  with comb(2,3) is_new held show ?thesis
    by (simp add: kept assms add_h_simulates is_builder_new)
       (simp add: stringify_h_builder_at stringify_def)
qed


theorem combine_on_facade_witness:
  "combine_h
     \<lparr>numArrays = [[], [5]], strArrays = [[], [''#x'']], builders = [(0, 0), (1, 1)]\<rparr> 0 1 ''+'' 1 =
     (2, \<lparr>numArrays = [[], [5], []], strArrays = [[], [''#x''], [''#x + #x'']],
       builders = [(0, 0), (1, 1), (2, 2)]\<rparr>) \<and>
   stringify_h \<lparr>numArrays = [[], [5], []], strArrays = [[], [''#x''], [''#x + #x'']],
       builders = [(0, 0), (1, 1), (2, 2)]\<rparr> 2 = ''#x + #x'' \<and>
   result_at (add_h Element \<lparr>numArrays = [[], [5], []], strArrays = [[], [''#x''], [''#x + #x'']],
       builders = [(0, 0), (1, 1), (2, 2)]\<rparr> 2 ''div'') =
     Inr \<lparr>callStack = [6], resultsArr = [''#x + #x'', ''div'']\<rparr>"
proof -
  let ?h = "\<lparr>numArrays = [[], [5]], strArrays = [[], [''#x'']], builders = [(0, 0), (1, 1)]\<rparr>"
  let ?h' = "\<lparr>numArrays = [[], [5], []], strArrays = [[], [''#x''], [''#x + #x'']],
       builders = [(0, 0), (1, 1), (2, 2)]\<rparr>"
  have s: "stringify_h ?h 1 = ''#x''"
    by (simp add: stringify_h_def resultsArr_ref_def)
  note t = combine_on_facade [OF after_id_heap(1,3,2,2,4) after_id_calls(4)]
  from t have "stringify_h ?h' 2 = stringify_h ?h 1 @ '' '' @ ''+'' @ '' '' @ stringify_h ?h 1"
    by blast
  moreover from t have "\<forall>cat v. result_at (add_h cat ?h' 2 v) =
            Inr \<lparr>callStack = [rank cat],
                 resultsArr = [stringify_h ?h 1 @ '' '' @ ''+'' @ '' '' @ stringify_h ?h 1,
                               rendered cat v]\<rparr>"
    by blast
  then have "result_at (add_h Element ?h' 2 ''div'') =
            Inr \<lparr>callStack = [rank Element],
                 resultsArr = [stringify_h ?h 1 @ '' '' @ ''+'' @ '' '' @ stringify_h ?h 1,
                               rendered Element ''div'']\<rparr>"
    by (rule allE, elim allE)
  ultimately show ?thesis
    using after_id_calls(4) unfolding s by simp
qed


section \<open>Properties of Rectangle\<close>

text \<open>
  Claim C8. The object built by \<open>Rectangle\<close> for \<open>w\<close> and \<open>ht\<close> has \<open>width\<close> \<open>w\<close> and
  \<open>height\<close> \<open>ht\<close>, and its \<open>getArea\<close> returns \<open>w * ht\<close>. The function reads the fields at
  each call: once \<open>width\<close> or \<open>height\<close> (or both) have been assigned anew, it returns the
  product of the values the fields hold then.
\<close>

theorem Rectangle_fields_and_area:
  assumes "Rectangle h w ht = (r, h')"
  shows "width (h' ! r) = w \<and> height (h' ! r) = ht \<and>
         getArea (h' ! r) = Area_of_this r \<and>
         call h' (getArea (h' ! r)) = w * ht \<and>
         (\<forall>w2. call (assign_width h' r w2) (getArea (h' ! r)) = w2 * ht) \<and>
         (\<forall>h2. call (assign_height h' r h2) (getArea (h' ! r)) = w * h2) \<and>
         (\<forall>w2 h2. call (assign_height (assign_width h' r w2) r h2) (getArea (h' ! r)) = w2 * h2)"
  using assms
  by (auto simp: Rectangle_def Let_def assign_width_def assign_height_def)


theorem Rectangle_fields_and_area_witness:
  "call (assign_width [\<lparr>width = 10, height = 20, getArea = Area_of_this 0\<rparr>] 0 (3::int))
     (Area_of_this 0) = 60"
  using Rectangle_fields_and_area [of "[]" "10::int" 20 0 "[\<lparr>width = 10, height = 20, getArea = Area_of_this 0\<rparr>]"]
  by (simp add: Rectangle_def)


section \<open>Properties of fromJSON\<close>

text \<open>
  Claim C10. When the text parses to null, a number or a boolean, \<open>fromJSON\<close> returns
  without error, whatever the prototype, the parser and the \<^verbatim>\<open>[[Set]]\<close> of the target
  are: the result is an object new to the store, with the given prototype and no own
  property, and the store is otherwise as before.
\<close>

theorem fromJSON_primitive_source:
  assumes "JSON_parse rt json = Inr v" "primitive_or_null v"
  shows "fromJSON rt h p json = Inr (length h, h @ [\<lparr>prototype = p, own = []\<rparr>])"
  using assms
  by (cases v) (simp_all add: fromJSON_def Object_create_def Object_assign_def)



theorem fromJSON_primitive_source_witness:
  "fromJSON literal_runtime [] (0::nat) ''7'' = Inr (0, [\<lparr>prototype = 0, own = []\<rparr>])"
proof -
  have "JSON_parse literal_runtime ''7'' = Inr (JNumber 7)"
    by (simp add: literal_runtime_def)
  from fromJSON_primitive_source [OF this, of "[]" 0] show ?thesis by simp
qed


end
